theory Spec2Isabelle
  imports Main
begin

section \<open>Molecular screening notebook: loading, counting and plotting the HIV table\<close>

text \<open>
  The repository holds two variants of one notebook. Each runs, in order,
  \<^verbatim>\<open>hiv = pd.read_csv('data/molecules_HIV.csv'); hiv.head()\<close>,
  then (first variant only) \<^verbatim>\<open>len(hiv[hiv["Label"]==1])\<close>, then
  \<^verbatim>\<open>sns.countplot(data = hiv, x='Label', orient='v')\<close> followed by
  \<^verbatim>\<open>plt.ylabel\<close>, \<^verbatim>\<open>plt.xlabel\<close> and \<^verbatim>\<open>plt.show()\<close>; the second
  variant passes \<^verbatim>\<open>x='HIV_active'\<close> to the plot.

  The cells are one-line calls into pandas, seaborn and matplotlib, so the
  theory has two layers: the library operations the cells call, modelled by
  their documented behaviour under the default arguments the notebook uses,
  and the cells themselves, as transformers of the kernel state.
\<close>

subsection \<open>Values, tables, errors\<close>

text \<open>
  A value of a data frame: an integer, a text, or the missing value.
  Floating-point and boolean columns are outside the model.
\<close>

datatype cell = IntC int | StrC string | NaN

text \<open>
  A data frame, row by row: the column names and the records in index order.
\<close>

record table =
  columns :: "string list"
  rows :: "cell list list"

text \<open>The exceptions the three libraries raise on the paths the notebook takes.\<close>

datatype error =
    FileNotFoundError
  | EmptyDataError
  | ParserError
  | KeyError string
  | ValueError
  | NameError string

text \<open>
  A data frame as the library builds it: column names pairwise distinct, every
  record with one value per column.
\<close>

definition wf_table :: "table \<Rightarrow> bool" where
  "wf_table t \<longleftrightarrow>
     distinct (columns t) \<and> list_all (\<lambda>r. length r = length (columns t)) (rows t)"

fun index_of :: "'a \<Rightarrow> 'a list \<Rightarrow> nat" where
  "index_of x [] = 0"
| "index_of x (y # ys) = (if x = y then 0 else Suc (index_of x ys))"

subsection \<open>Decimal literals\<close>

definition is_digit :: "char \<Rightarrow> bool" where
  "is_digit c \<longleftrightarrow> c \<in> set ''0123456789''"

definition digit_value :: "char \<Rightarrow> nat" where
  "digit_value c = index_of c ''0123456789''"

definition digits_value :: "string \<Rightarrow> nat" where
  "digits_value ds = foldl (\<lambda>n c. 10 * n + digit_value c) 0 ds"

definition is_int_literal :: "string \<Rightarrow> bool" where
  "is_int_literal s =
     (case s of
        [] \<Rightarrow> False
      | c # ds \<Rightarrow>
          if c = CHR ''-'' \<or> c = CHR ''+'' then ds \<noteq> [] \<and> list_all is_digit ds
          else list_all is_digit s)"

definition int_of_literal :: "string \<Rightarrow> int" where
  "int_of_literal s =
     (case s of
        [] \<Rightarrow> 0
      | c # ds \<Rightarrow>
          if c = CHR ''-'' then - int (digits_value ds)
          else if c = CHR ''+'' then int (digits_value ds)
          else int (digits_value s))"

fun show_nat :: "nat \<Rightarrow> string" where
  "show_nat n =
     (if n < 10 then [''0123456789'' ! n]
      else show_nat (n div 10) @ [''0123456789'' ! (n mod 10)])"

subsection \<open>pandas: \<^verbatim>\<open>read_csv\<close>\<close>

text \<open>
  A delimited file is given by its lines, each line by its fields: splitting a
  line at the delimiter and unquoting are the tokenizer's work and are not
  modelled. The empty line is the line with no field or with one empty field.
  The file system maps a path to the lines of the file there.
\<close>

type_synonym csv_lines = "string list list"
type_synonym filesystem = "string \<rightharpoonup> csv_lines"

definition blank_line :: "string list \<Rightarrow> bool" where
  "blank_line l \<longleftrightarrow> l = [] \<or> l = [[]]"

text \<open>
  Column names: an empty header field at position \<open>i\<close> is named
  \<^verbatim>\<open>Unnamed: i\<close>, and a name that occurred \<open>c > 0\<close> times before gets the
  suffix \<^verbatim>\<open>.c\<close>. (Where such a suffixed name meets another header field
  the library renames once more; the model does not.)
\<close>

definition name_unnamed :: "string list \<Rightarrow> string list" where
  "name_unnamed header =
     map (\<lambda>(i, n). if n = [] then ''Unnamed: '' @ show_nat i else n)
       (zip [0..<length header] header)"

fun dedup_names :: "string list \<Rightarrow> string list \<Rightarrow> string list" where
  "dedup_names seen [] = []"
| "dedup_names seen (n # ns) =
     (let c = count_list seen n
      in (if c = 0 then n else n @ ''.'' @ show_nat c) # dedup_names (seen @ [n]) ns)"

definition mangle_names :: "string list \<Rightarrow> string list" where
  "mangle_names header = dedup_names [] (name_unnamed header)"

text \<open>
  Type inference works on a whole column. A column whose non-empty fields are
  all decimal integer literals is numeric; any other column stays text. An
  empty field is the missing value in both.
\<close>

definition numeric_column :: "string list \<Rightarrow> bool" where
  "numeric_column fs \<longleftrightarrow> list_all (\<lambda>f. f = [] \<or> is_int_literal f) fs"

definition convert_field :: "bool \<Rightarrow> string \<Rightarrow> cell" where
  "convert_field numeric f =
     (if f = [] then NaN else if numeric then IntC (int_of_literal f) else StrC f)"

definition infer_column :: "string list \<Rightarrow> cell list" where
  "infer_column fs = map (convert_field (numeric_column fs)) fs"

text \<open>
  A line shorter than the expected width is filled with empty fields. The
  expected width is the header's, or the first data line's when that is
  longer; a later line with more fields than that is a tokenizing error. When
  the first data line is longer than the header by \<open>d\<close> fields, the first
  \<open>d\<close> fields of every line label the row and are not columns of the table.
\<close>

definition pad_row :: "nat \<Rightarrow> string list \<Rightarrow> string list" where
  "pad_row w r = r @ replicate (w - length r) []"

definition expected_width :: "string list \<Rightarrow> csv_lines \<Rightarrow> nat" where
  "expected_width header body =
     (case body of [] \<Rightarrow> length header | r # _ \<Rightarrow> max (length header) (length r))"

definition field_column :: "csv_lines \<Rightarrow> nat \<Rightarrow> string list" where
  "field_column body j = map (\<lambda>r. r ! j) body"

definition build_rows :: "nat \<Rightarrow> nat \<Rightarrow> csv_lines \<Rightarrow> cell list list" where
  "build_rows d w body =
     (let cols = map (\<lambda>j. infer_column (field_column body j)) [d..<w]
      in map (\<lambda>i. map (\<lambda>c. c ! i) cols) [0..<length body])"

definition parse_lines :: "csv_lines \<Rightarrow> error + table" where
  "parse_lines ls =
     (case filter (\<lambda>l. \<not> blank_line l) ls of
        [] \<Rightarrow> Inl EmptyDataError
      | header # body \<Rightarrow>
          (let k = length header; w = expected_width header body
           in if list_ex (\<lambda>r. w < length r) body then Inl ParserError
              else Inr \<lparr> columns = mangle_names header,
                         rows = build_rows (w - k) w (map (pad_row w) body) \<rparr>))"

definition read_csv :: "filesystem \<Rightarrow> string \<Rightarrow> error + table" where
  "read_csv fs path =
     (case fs path of
        None \<Rightarrow> Inl FileNotFoundError
      | Some ls \<Rightarrow> parse_lines ls)"

subsection \<open>pandas: data frame operations\<close>

text \<open>\<^verbatim>\<open>df.head()\<close>: the first five records.\<close>

definition head :: "table \<Rightarrow> table" where
  "head t = t \<lparr> rows := take 5 (rows t) \<rparr>"

text \<open>The values of the column of a given name, record by record.\<close>

definition column_values :: "table \<Rightarrow> string \<Rightarrow> cell list" where
  "column_values t name = map (\<lambda>r. r ! index_of name (columns t)) (rows t)"

text \<open>\<^verbatim>\<open>df[name]\<close>: the column of that name, or \<^verbatim>\<open>KeyError\<close>.\<close>

definition getitem_column :: "table \<Rightarrow> string \<Rightarrow> error + cell list" where
  "getitem_column t name =
     (if name \<in> set (columns t) then Inr (column_values t name)
      else Inl (KeyError name))"

text \<open>
  \<^verbatim>\<open>series == v\<close>, element by element. The missing value equals nothing,
  itself included.
\<close>

fun cell_eq :: "cell \<Rightarrow> cell \<Rightarrow> bool" where
  "cell_eq (IntC a) (IntC b) = (a = b)"
| "cell_eq (StrC a) (StrC b) = (a = b)"
| "cell_eq _ _ = False"

definition series_eq :: "cell list \<Rightarrow> cell \<Rightarrow> bool list" where
  "series_eq s v = map (\<lambda>c. cell_eq c v) s"

text \<open>
  \<^verbatim>\<open>df[mask]\<close>: a new frame with the records where the mask is true, in
  order; a mask of another length is refused.
\<close>

definition getitem_mask :: "table \<Rightarrow> bool list \<Rightarrow> error + table" where
  "getitem_mask t m =
     (if length m = length (rows t)
      then Inr (t \<lparr> rows := map fst (filter snd (zip (rows t) m)) \<rparr>)
      else Inl ValueError)"

definition len :: "table \<Rightarrow> nat" where
  "len t = length (rows t)"

subsection \<open>seaborn and matplotlib\<close>

text \<open>An axes: its bars (category and height) and its two axis labels.\<close>

record axes =
  bars :: "(cell \<times> nat) list"
  x_label :: string
  y_label :: string

text \<open>
  The order of the categories: the distinct non-missing values in order of
  first appearance, sorted when they are all numbers.
\<close>

definition is_number :: "cell \<Rightarrow> bool" where
  "is_number c = (case c of IntC _ \<Rightarrow> True | _ \<Rightarrow> False)"

definition number_value :: "cell \<Rightarrow> int" where
  "number_value c = (case c of IntC n \<Rightarrow> n | _ \<Rightarrow> 0)"

definition notnull :: "cell \<Rightarrow> bool" where
  "notnull c \<longleftrightarrow> c \<noteq> NaN"

definition unique :: "'a list \<Rightarrow> 'a list" where
  "unique xs = rev (remdups (rev xs))"

definition categorical_order :: "cell list \<Rightarrow> cell list" where
  "categorical_order vs =
     (let order = filter notnull (unique vs)
      in if list_all is_number order then map IntC (sort (map number_value order))
         else order)"

text \<open>
  \<^verbatim>\<open>sns.countplot(data=df, x=name, orient='v')\<close> on a fresh axes: one bar per
  category, as high as the number of records of that category; the axis labels
  start as the column name and \<^verbatim>\<open>count\<close>. With only \<^verbatim>\<open>x\<close> given the bars
  are vertical whatever \<^verbatim>\<open>orient\<close> says. A name that is not a column is a
  \<^verbatim>\<open>ValueError\<close>.
\<close>

definition countplot :: "table \<Rightarrow> string \<Rightarrow> error + axes" where
  "countplot data x =
     (if x \<in> set (columns data)
      then (let vs = column_values data x
            in Inr \<lparr> bars = map (\<lambda>c. (c, length (filter (\<lambda>v. v = c) vs)))
                               (categorical_order vs),
                      x_label = x,
                      y_label = ''count'' \<rparr>)
      else Inl ValueError)"

definition ylabel :: "string \<Rightarrow> axes \<Rightarrow> axes" where
  "ylabel s ax = ax \<lparr> y_label := s \<rparr>"

definition xlabel :: "string \<Rightarrow> axes \<Rightarrow> axes" where
  "xlabel s ax = ax \<lparr> x_label := s \<rparr>"

subsection \<open>The notebook\<close>

text \<open>
  The kernel state: the variable \<^verbatim>\<open>hiv\<close> (unbound before the loading cell
  has run) and what the cells have displayed so far.
\<close>

datatype shown = OutTable table | OutInt nat | OutFigure axes

record kernel =
  hiv :: "table option"
  displayed :: "shown list"

definition plt_show :: "axes \<Rightarrow> kernel \<Rightarrow> kernel" where
  "plt_show ax s = s \<lparr> displayed := displayed s @ [OutFigure ax] \<rparr>"

text \<open>
  Dataset Loader. The cell in both variants is
  \<^verbatim>\<open>hiv = pd.read_csv('data/molecules_HIV.csv'); hiv.head()\<close>.
\<close>

definition loader :: "filesystem \<Rightarrow> string \<Rightarrow> kernel \<Rightarrow> error + kernel" where
  "loader fs path s =
     (case read_csv fs path of
        Inl e \<Rightarrow> Inl e
      | Inr t \<Rightarrow> Inr (s \<lparr> hiv := Some t, displayed := displayed s @ [OutTable (head t)] \<rparr>))"

definition cell_load :: "filesystem \<Rightarrow> kernel \<Rightarrow> error + kernel" where
  "cell_load fs s = loader fs ''data/molecules_HIV.csv'' s"

text \<open>
  Summary Reporter: \<^verbatim>\<open>len(df[df[name] == v])\<close>. The cell of the first
  variant is \<^verbatim>\<open>len(hiv[hiv["Label"]==1])\<close>.
\<close>

definition count_equal :: "table \<Rightarrow> string \<Rightarrow> cell \<Rightarrow> error + nat" where
  "count_equal df name v =
     (case getitem_column df name of
        Inl e \<Rightarrow> Inl e
      | Inr col \<Rightarrow>
          (case getitem_mask df (series_eq col v) of
             Inl e \<Rightarrow> Inl e
           | Inr sub \<Rightarrow> Inr (len sub)))"

definition reporter :: "string \<Rightarrow> cell \<Rightarrow> kernel \<Rightarrow> error + nat \<times> kernel" where
  "reporter name v s =
     (case hiv s of
        None \<Rightarrow> Inl (NameError ''hiv'')
      | Some df \<Rightarrow>
          (case count_equal df name v of
             Inl e \<Rightarrow> Inl e
           | Inr n \<Rightarrow> Inr (n, s \<lparr> displayed := displayed s @ [OutInt n] \<rparr>)))"

definition cell_count :: "kernel \<Rightarrow> error + nat \<times> kernel" where
  "cell_count s = reporter ''Label'' (IntC 1) s"

text \<open>
  Distribution Visualizer: the count plot of one column, relabelled and
  shown. The first variant plots \<^verbatim>\<open>Label\<close>, the second
  \<^verbatim>\<open>HIV_active\<close>.
\<close>

definition draw :: "table \<Rightarrow> string \<Rightarrow> error + axes" where
  "draw df name =
     (case countplot df name of
        Inl e \<Rightarrow> Inl e
      | Inr ax \<Rightarrow>
          Inr (xlabel ''Class 0: inactives and Class 1: Actives''
                 (ylabel ''Num of molecules'' ax)))"

definition visualizer :: "string \<Rightarrow> kernel \<Rightarrow> error + kernel" where
  "visualizer name s =
     (case hiv s of
        None \<Rightarrow> Inl (NameError ''hiv'')
      | Some df \<Rightarrow>
          (case draw df name of
             Inl e \<Rightarrow> Inl e
           | Inr ax \<Rightarrow> Inr (plt_show ax s)))"

definition cell_plot :: "kernel \<Rightarrow> error + kernel" where
  "cell_plot s = visualizer ''Label'' s"


subsection \<open>Input files and label columns the properties speak about\<close>

text \<open>
  A well-formed delimited file: a header line of pairwise distinct, non-empty
  column names, followed by data lines that are not empty and have one field
  per column.
\<close>

definition well_formed :: "csv_lines \<Rightarrow> bool" where
  "well_formed ls =
     (case ls of
        [] \<Rightarrow> False
      | header # body \<Rightarrow>
          header \<noteq> [] \<and> distinct header \<and> [] \<notin> set header \<and>
          list_all (\<lambda>r. length r = length header \<and> \<not> blank_line r) body)"

text \<open>A column is a binary label when each of its values is 0 or 1.\<close>

definition binary_labels :: "table \<Rightarrow> string \<Rightarrow> bool" where
  "binary_labels t name \<longleftrightarrow>
     list_all (\<lambda>c. c = IntC 0 \<or> c = IntC 1) (column_values t name)"

subsection \<open>Sample data\<close>

text \<open>
  A file with the header the notebook's own output shows and five molecules,
  two of them active; the table \<^verbatim>\<open>read_csv\<close> builds from it; and the
  kernel before any cell has run.
\<close>

definition sample_lines :: csv_lines where
  "sample_lines =
     [[''Smiles'', ''Experimental activity'', ''Label''],
      [''CC(=O)N1c2ccccc2Sc2c1ccc1ccccc21'', ''CI'', ''0''],
      [''CCO'', ''CA'', ''1''],
      [''O=S(=O)(O)CCS(=O)(=O)O'', ''CI'', ''0''],
      [''CCN'', ''CM'', ''1''],
      [''CC'', ''CI'', ''0'']]"

definition sample_table :: table where
  "sample_table =
     \<lparr> columns = [''Smiles'', ''Experimental activity'', ''Label''],
       rows = [[StrC ''CC(=O)N1c2ccccc2Sc2c1ccc1ccccc21'', StrC ''CI'', IntC 0],
               [StrC ''CCO'', StrC ''CA'', IntC 1],
               [StrC ''O=S(=O)(O)CCS(=O)(=O)O'', StrC ''CI'', IntC 0],
               [StrC ''CCN'', StrC ''CM'', IntC 1],
               [StrC ''CC'', StrC ''CI'', IntC 0]] \<rparr>"

definition sample_fs :: filesystem where
  "sample_fs = [''data/molecules_HIV.csv'' \<mapsto> sample_lines]"

definition fresh_kernel :: kernel where
  "fresh_kernel = \<lparr> hiv = None, displayed = [] \<rparr>"

definition loaded_kernel :: kernel where
  "loaded_kernel = \<lparr> hiv = Some sample_table, displayed = [OutTable sample_table] \<rparr>"


section \<open>Properties\<close>

subsection \<open>Column names and rows of a well-formed file\<close>

lemma dedup_names_fresh:
  "distinct ns \<Longrightarrow> set seen \<inter> set ns = {} \<Longrightarrow> dedup_names seen ns = ns"
proof (induction ns arbitrary: seen)
  case Nil
  show ?case by simp
next
  case (Cons n ns)
  from Cons.prems have fresh: "n \<notin> set seen" and rest: "distinct ns"
    and disj: "set (seen @ [n]) \<inter> set ns = {}"
    by auto
  from fresh have "count_list seen n = 0" by simp
  moreover from Cons.IH [OF rest disj] have "dedup_names (seen @ [n]) ns = ns" .
  ultimately show ?case by simp
qed

lemma name_unnamed_named:
  assumes "[] \<notin> set header"
  shows "name_unnamed header = header"
proof -
  have "map (\<lambda>(i, n). if n = [] then ''Unnamed: '' @ show_nat i else n)
          (zip [0..<length header] header)
        = map snd (zip [0..<length header] header)"
    using assms by (intro map_cong refl) (auto dest: set_zip_rightD)
  then show ?thesis by (simp add: name_unnamed_def)
qed

lemma mangle_names_id:
  "distinct header \<Longrightarrow> [] \<notin> set header \<Longrightarrow> mangle_names header = header"
  by (simp add: mangle_names_def name_unnamed_named dedup_names_fresh)

lemma well_formed_not_blank:
  "well_formed (header # body)
   \<Longrightarrow> filter (\<lambda>l. \<not> blank_line l) (header # body) = header # body"
  by (cases header) (auto simp: well_formed_def blank_line_def list_all_iff filter_id_conv)

lemma well_formed_width:
  "well_formed (header # body) \<Longrightarrow> expected_width header body = length header"
  by (cases body) (auto simp: well_formed_def expected_width_def)

lemma well_formed_pad:
  "well_formed (header # body) \<Longrightarrow> map (pad_row (length header)) body = body"
  by (auto simp: well_formed_def pad_row_def list_all_iff map_idI)

lemma well_formed_no_long:
  "well_formed (header # body) \<Longrightarrow> \<not> list_ex (\<lambda>r. length header < length r) body"
  by (auto simp: well_formed_def list_all_iff list_ex_iff)

lemma parse_lines_well_formed:
  assumes "well_formed (header # body)"
  shows "parse_lines (header # body)
         = Inr \<lparr> columns = header, rows = build_rows 0 (length header) body \<rparr>"
proof -
  from assms have "distinct header" "[] \<notin> set header"
    by (auto simp: well_formed_def)
  then have "mangle_names header = header" by (rule mangle_names_id)
  then show ?thesis
    unfolding parse_lines_def
    by (simp only: well_formed_not_blank [OF assms] well_formed_width [OF assms]
        well_formed_pad [OF assms] well_formed_no_long [OF assms] Let_def list.case if_False
        diff_self_eq_0)
qed

lemma length_build_rows: "length (build_rows d w body) = length body"
  by (simp add: build_rows_def)



lemma build_rows_column:
  assumes "j < w"
  shows "map (\<lambda>r. r ! j) (build_rows 0 w body) = infer_column (field_column body j)"
proof -
  let ?col = "infer_column (field_column body j)"
  have n: "length ?col = length body"
    by (simp add: infer_column_def field_column_def)
  have "map (\<lambda>r. r ! j) (build_rows 0 w body) = map (\<lambda>i. ?col ! i) [0..<length body]"
    using assms by (simp add: build_rows_def comp_def)
  also have "\<dots> = ?col"
    using n by (metis map_nth)
  finally show ?thesis .
qed

lemma index_of_less: "x \<in> set xs \<Longrightarrow> index_of x xs < length xs"
  by (induction xs) auto

lemma loader_success:
  "read_csv fs path = Inr t
   \<Longrightarrow> loader fs path s
       = Inr (s \<lparr> hiv := Some t, displayed := displayed s @ [OutTable (head t)] \<rparr>)"
  by (simp add: loader_def)

lemma loader_failure: "read_csv fs path = Inl e \<Longrightarrow> loader fs path s = Inl e"
  by (simp add: loader_def)

subsection \<open>Counting\<close>

lemma mask_filter: "map fst (filter snd (zip xs (map p xs))) = filter p xs"
  by (induction xs) auto

lemma count_equal_column:
  assumes "name \<in> set (columns df)"
  shows "count_equal df name v
         = Inr (length (filter (\<lambda>c. cell_eq c v) (column_values df name)))"
proof -
  let ?g = "\<lambda>r. r ! index_of name (columns df)"
  let ?p = "\<lambda>c. cell_eq c v"
  have mask: "series_eq (column_values df name) v = map (?p \<circ> ?g) (rows df)"
    by (simp add: series_eq_def column_values_def)
  have "getitem_mask df (map (?p \<circ> ?g) (rows df))
        = Inr (df \<lparr> rows := filter (?p \<circ> ?g) (rows df) \<rparr>)"
    unfolding getitem_mask_def by (simp add: mask_filter)
  moreover have "length (filter (?p \<circ> ?g) (rows df))
                 = length (filter ?p (column_values df name))"
    by (simp add: column_values_def filter_map)
  ultimately show ?thesis
    using assms by (simp add: count_equal_def getitem_column_def mask len_def)
qed

lemma count_equal_unknown_column:
  "name \<notin> set (columns df) \<Longrightarrow> count_equal df name v = Inl (KeyError name)"
  by (simp add: count_equal_def getitem_column_def)

lemma cell_eq_iff: "v \<noteq> NaN \<Longrightarrow> cell_eq c v \<longleftrightarrow> c = v"
  by (cases c; cases v) auto

lemma reporter_result:
  assumes "hiv s = Some df" "name \<in> set (columns df)"
  shows "reporter name v s
         = Inr (length (filter (\<lambda>c. cell_eq c v) (column_values df name)),
                s \<lparr> displayed := displayed s
                       @ [OutInt (length (filter (\<lambda>c. cell_eq c v) (column_values df name)))] \<rparr>)"
  using assms by (simp add: reporter_def count_equal_column)

lemma reporter_keeps_hiv: "reporter name v s = Inr (n, s') \<Longrightarrow> hiv s' = hiv s"
  by (auto simp: reporter_def split: option.splits sum.splits)

lemma binary_split:
  "list_all (\<lambda>c. c = IntC 0 \<or> c = IntC 1) cs
   \<Longrightarrow> length (filter (\<lambda>c. cell_eq c (IntC 1)) cs)
       + length (filter (\<lambda>c. cell_eq c (IntC 0)) cs) = length cs"
  by (induction cs) auto

subsection \<open>Plotting\<close>

lemma set_unique: "set (unique xs) = set xs"
  by (simp add: unique_def)

lemma distinct_unique: "distinct (unique xs)"
  by (simp add: unique_def)

lemma number_round_trip: "is_number c \<Longrightarrow> IntC (number_value c) = c"
  by (cases c) (simp_all add: is_number_def number_value_def)

lemma set_categorical_order:
  "set (categorical_order vs) = {c \<in> set vs. c \<noteq> NaN}"
proof -
  let ?order = "filter notnull (unique vs)"
  have base: "set ?order = {c \<in> set vs. c \<noteq> NaN}"
    by (auto simp: set_unique notnull_def)
  show ?thesis
  proof (cases "list_all is_number ?order")
    case True
    then have "IntC ` number_value ` set ?order = set ?order"
      by (force simp: list_all_iff number_round_trip image_iff)
    with True base show ?thesis
      by (simp add: categorical_order_def Let_def image_image)
  next
    case False
    with base show ?thesis by (simp add: categorical_order_def Let_def)
  qed
qed

lemma distinct_categorical_order: "distinct (categorical_order vs)"
proof -
  let ?order = "filter notnull (unique vs)"
  have d: "distinct ?order" by (simp add: distinct_unique)
  show ?thesis
  proof (cases "list_all is_number ?order")
    case True
    have "inj_on number_value (set ?order)"
    proof (rule inj_onI)
      fix a b assume "a \<in> set ?order" "b \<in> set ?order" "number_value a = number_value b"
      with True have "is_number a" "is_number b" by (auto simp: list_all_iff)
      with \<open>number_value a = number_value b\<close> show "a = b"
        by (metis number_round_trip)
    qed
    with d have "distinct (map number_value ?order)" by (simp add: distinct_map)
    then have "distinct (sort (map number_value ?order))" by simp
    then have "distinct (map IntC (sort (map number_value ?order)))"
      by (simp add: distinct_map inj_on_def)
    with True show ?thesis by (simp add: categorical_order_def Let_def)
  next
    case False
    with d show ?thesis by (simp add: categorical_order_def Let_def)
  qed
qed

lemma draw_chart:
  assumes "name \<in> set (columns df)"
  shows "draw df name
         = Inr \<lparr> bars = map (\<lambda>c. (c, length (filter (\<lambda>v. v = c) (column_values df name))))
                          (categorical_order (column_values df name)),
                 x_label = ''Class 0: inactives and Class 1: Actives'',
                 y_label = ''Num of molecules'' \<rparr>"
  using assms by (simp add: draw_def countplot_def xlabel_def ylabel_def Let_def)

lemma draw_unknown_column:
  "name \<notin> set (columns df)
   \<Longrightarrow> draw df name = Inl ValueError"
  by (simp add: draw_def countplot_def)

lemma visualizer_keeps_hiv: "visualizer name s = Inr s' \<Longrightarrow> hiv s' = hiv s"
  by (auto simp: visualizer_def plt_show_def split: option.splits sum.splits)

lemma count_plot_of_column:
  assumes "hiv s = Some df" and "name \<in> set (columns df)"
  shows "\<exists>ax. visualizer name s = Inr (plt_show ax s)
           \<and> distinct (map fst (bars ax))
           \<and> set (map fst (bars ax)) = {c \<in> set (column_values df name). c \<noteq> NaN}
           \<and> (\<forall>(c, h) \<in> set (bars ax).
                 h = length (filter (\<lambda>v. v = c) (column_values df name)))
           \<and> y_label ax = ''Num of molecules''
           \<and> x_label ax = ''Class 0: inactives and Class 1: Actives''"
proof -
  let ?col = "column_values df name"
  let ?cs = "categorical_order ?col"
  let ?ax = "\<lparr> bars = map (\<lambda>c. (c, length (filter (\<lambda>v. v = c) ?col))) ?cs,
               x_label = ''Class 0: inactives and Class 1: Actives'',
               y_label = ''Num of molecules'' \<rparr>"
  have run: "visualizer name s = Inr (plt_show ?ax s)"
    using assms by (simp add: visualizer_def draw_chart)
  have cats: "map fst (bars ?ax) = ?cs" by (simp add: comp_def)
  have heights: "\<forall>(c, h) \<in> set (bars ?ax). h = length (filter (\<lambda>v. v = c) ?col)"
    by auto
  show ?thesis
    apply (rule exI [of _ ?ax])
    apply (intro conjI)
         apply (rule run)
        apply (simp only: cats distinct_categorical_order)
       apply (simp only: cats set_categorical_order)
      apply (rule heights)
     apply simp
    apply simp
    done
qed

subsection \<open>Missing columns, empty files, binary label fields\<close>

lemma parse_lines_blank:
  "list_all blank_line ls \<Longrightarrow> parse_lines ls = Inl EmptyDataError"
proof -
  assume "list_all blank_line ls"
  then have "filter (\<lambda>l. \<not> blank_line l) ls = []"
    by (simp add: list_all_iff filter_empty_conv)
  then show ?thesis by (simp add: parse_lines_def)
qed

lemma reporter_unknown_column:
  "hiv s = Some df \<Longrightarrow> name \<notin> set (columns df)
   \<Longrightarrow> reporter name v s = Inl (KeyError name)"
  by (simp add: reporter_def count_equal_unknown_column)

lemma visualizer_unknown_column:
  "hiv s = Some df \<Longrightarrow> name \<notin> set (columns df)
   \<Longrightarrow> visualizer name s = Inl ValueError"
  by (simp add: visualizer_def draw_unknown_column)

lemma binary_field_converted:
  assumes "f = ''0'' \<or> f = ''1''"
  shows "is_int_literal f \<and> (convert_field True f = IntC 0 \<or> convert_field True f = IntC 1)"
  using assms
proof
  assume f: "f = ''0''"
  have "is_int_literal ''0''" by (simp add: is_int_literal_def is_digit_def)
  moreover have "int_of_literal ''0'' = 0"
    by (simp add: int_of_literal_def digits_value_def digit_value_def)
  then have "convert_field True ''0'' = IntC 0" by (simp add: convert_field_def)
  ultimately show ?thesis unfolding f by (intro conjI disjI1)
next
  assume f: "f = ''1''"
  have "is_int_literal ''1''" by (simp add: is_int_literal_def is_digit_def)
  moreover have "int_of_literal ''1'' = 1"
    by (simp add: int_of_literal_def digits_value_def digit_value_def)
  then have "convert_field True ''1'' = IntC 1" by (simp add: convert_field_def)
  ultimately show ?thesis unfolding f by (intro conjI disjI2)
qed

lemma binary_fields_numeric:
  assumes "\<forall>f \<in> set fs. f = ''0'' \<or> f = ''1''"
  shows "list_all (\<lambda>c. c = IntC 0 \<or> c = IntC 1) (infer_column fs)"
proof -
  have each: "is_int_literal f
              \<and> (convert_field True f = IntC 0 \<or> convert_field True f = IntC 1)"
    if "f \<in> set fs" for f
  proof (rule binary_field_converted)
    from assms that show "f = ''0'' \<or> f = ''1''" by (rule bspec)
  qed
  then have "\<forall>f \<in> set fs. f = [] \<or> is_int_literal f" by (intro ballI disjI2) simp
  then have num: "numeric_column fs"
    by (simp only: numeric_column_def list_all_iff)
  from each have "\<forall>f \<in> set fs. convert_field True f = IntC 0 \<or> convert_field True f = IntC 1"
    by (intro ballI) simp
  then have "\<forall>c \<in> set (map (convert_field True) fs). c = IntC 0 \<or> c = IntC 1"
    by (simp only: set_map ball_simps)
  with num show ?thesis
    by (simp only: infer_column_def list_all_iff)
qed

subsection \<open>The sample data\<close>


lemma sample_load: "cell_load sample_fs fresh_kernel = Inr loaded_kernel"
  by code_simp

lemma sample_well_formed: "well_formed sample_lines"
  by (simp add: well_formed_def sample_lines_def blank_line_def)

lemma sample_wf_table: "wf_table sample_table"
  by (simp add: wf_table_def sample_table_def)

lemma sample_label_column:
  "column_values sample_table ''Label'' = [IntC 0, IntC 1, IntC 0, IntC 1, IntC 0]"
  by (simp add: column_values_def sample_table_def)



section \<open>The claims\<close>



text \<open>
  C2. On a loaded table with the target column present, the Summary Reporter
  returns the number of records whose value in that column equals the match
  value (equality as \<^verbatim>\<open>==\<close> computes it; for a match value other than the
  missing value that is plain equality), and the table bound to \<^verbatim>\<open>hiv\<close>
  is the same afterwards. The witness is the table of 5 records of which 2
  have label 1: the notebook's query returns 2.
\<close>

theorem reporter_counts_matches:
  assumes "hiv s = Some df" and "wf_table df" and "name \<in> set (columns df)"
  shows "\<exists>n s'. reporter name v s = Inr (n, s')
           \<and> n = length (filter (\<lambda>c. cell_eq c v) (column_values df name))
           \<and> (v \<noteq> NaN \<longrightarrow> n = length (filter (\<lambda>c. c = v) (column_values df name)))
           \<and> hiv s' = Some df"
  using assms by (simp add: reporter_result cell_eq_iff)

theorem reporter_counts_matches_witness:
  "hiv loaded_kernel = Some sample_table
   \<and> wf_table sample_table
   \<and> ''Label'' \<in> set (columns sample_table)
   \<and> len sample_table = 5
   \<and> length (filter (\<lambda>c. c = IntC 1) (column_values sample_table ''Label'')) = 2
   \<and> (\<exists>s'. cell_count loaded_kernel = Inr (2, s') \<and> hiv s' = Some sample_table)"
proof -
  have h1: "hiv loaded_kernel = Some sample_table" by (simp add: loaded_kernel_def)
  have h3: "''Label'' \<in> set (columns sample_table)" by (simp add: sample_table_def)
  have two: "length (filter (\<lambda>c. c = IntC 1) (column_values sample_table ''Label'')) = 2"
    by (simp add: sample_label_column)
  from reporter_counts_matches [OF h1 sample_wf_table h3, of "IntC 1"] two
  have "\<exists>s'. cell_count loaded_kernel = Inr (2, s') \<and> hiv s' = Some sample_table"
    by (auto simp: cell_count_def)
  moreover have "len sample_table = 5" by (simp add: len_def sample_table_def)
  ultimately show ?thesis using h1 h3 two sample_wf_table by blast
qed

text \<open>
  C3 (as the code has it). The loader does not look for a label column. A
  file without any header line (empty, or empty lines only) makes it fail
  with \<^verbatim>\<open>EmptyDataError\<close>, and no table is bound. A well-formed file whose
  header lacks the label column is loaded with the columns it has; the
  missing column is reported only when a later cell looks it up, as
  \<^verbatim>\<open>KeyError\<close> by the Summary Reporter and as \<^verbatim>\<open>ValueError\<close> by the
  Distribution Visualizer.
\<close>

theorem loader_schema_not_checked:
  "(fs path = Some ls \<and> list_all blank_line ls
      \<longrightarrow> loader fs path s = Inl EmptyDataError)
   \<and> (fs path = Some (header # body) \<and> well_formed (header # body) \<and> label \<notin> set header
      \<longrightarrow> (\<exists>t s'. loader fs path s = Inr s' \<and> hiv s' = Some t \<and> columns t = header
                 \<and> length (rows t) = length body
                 \<and> reporter label v s' = Inl (KeyError label)
                 \<and> visualizer label s'
                     = Inl ValueError))"
proof (intro conjI impI)
  assume "fs path = Some ls \<and> list_all blank_line ls"
  then have "read_csv fs path = Inl EmptyDataError"
    by (simp add: read_csv_def parse_lines_blank)
  then show "loader fs path s = Inl EmptyDataError" by (rule loader_failure)
next
  assume a: "fs path = Some (header # body) \<and> well_formed (header # body)
             \<and> label \<notin> set header"
  let ?t = "\<lparr> columns = header, rows = build_rows 0 (length header) body \<rparr>"
  let ?s = "s \<lparr> hiv := Some ?t, displayed := displayed s @ [OutTable (head ?t)] \<rparr>"
  from a have "read_csv fs path = Inr ?t"
    by (simp add: read_csv_def parse_lines_well_formed)
  then have l: "loader fs path s = Inr ?s" by (rule loader_success)
  have h: "hiv ?s = Some ?t" by simp
  from a have miss: "label \<notin> set (columns ?t)" by simp
  have "reporter label v ?s = Inl (KeyError label)"
    using h miss by (rule reporter_unknown_column)
  moreover have "visualizer label ?s
                 = Inl ValueError"
    using h miss by (rule visualizer_unknown_column)
  moreover have "columns ?t = header" "length (rows ?t) = length body"
    by (simp_all add: length_build_rows)
  ultimately show "\<exists>t s'. loader fs path s = Inr s' \<and> hiv s' = Some t \<and> columns t = header
                 \<and> length (rows t) = length body
                 \<and> reporter label v s' = Inl (KeyError label)
                 \<and> visualizer label s'
                     = Inl ValueError"
    using l h by blast
qed

theorem loader_schema_not_checked_witness:
  "(Map.empty(''empty.csv'' \<mapsto> [[], ['''']])) ''empty.csv'' = Some [[], ['''']]
   \<and> list_all blank_line [[], ['''']]
   \<and> loader (Map.empty(''empty.csv'' \<mapsto> [[], ['''']])) ''empty.csv'' fresh_kernel
       = Inl EmptyDataError
   \<and> sample_fs ''data/molecules_HIV.csv'' = Some sample_lines
   \<and> well_formed sample_lines
   \<and> ''HIV_active'' \<notin> set (hd sample_lines)
   \<and> (\<exists>t s'. cell_load sample_fs fresh_kernel = Inr s' \<and> hiv s' = Some t
          \<and> columns t = hd sample_lines
          \<and> reporter ''HIV_active'' (IntC 1) s' = Inl (KeyError ''HIV_active''))"
proof -
  let ?fs = "Map.empty(''empty.csv'' \<mapsto> [[], ['''']])"
  let ?h = "hd sample_lines"
  let ?b = "tl sample_lines"
  have split: "sample_lines = ?h # ?b" by (simp add: sample_lines_def)
  have a1: "?fs ''empty.csv'' = Some [[], ['''']] \<and> list_all blank_line [[], ['''']]"
    by (simp add: blank_line_def)
  have b1: "sample_fs ''data/molecules_HIV.csv'' = Some sample_lines"
    by (simp add: sample_fs_def)
  have b3: "''HIV_active'' \<notin> set ?h" by (simp add: sample_lines_def)
  have a2: "sample_fs ''data/molecules_HIV.csv'' = Some (?h # ?b) \<and> well_formed (?h # ?b)
            \<and> ''HIV_active'' \<notin> set ?h"
    using b1 b3 sample_well_formed split by simp
  from loader_schema_not_checked [where fs = ?fs and path = "''empty.csv''"
      and ls = "[[], ['''']]" and s = fresh_kernel] a1
  have c1: "loader ?fs ''empty.csv'' fresh_kernel = Inl EmptyDataError" by blast
  from loader_schema_not_checked [where fs = sample_fs
      and path = "''data/molecules_HIV.csv''" and header = ?h and body = ?b
      and label = "''HIV_active''" and s = fresh_kernel and v = "IntC 1"] a2
  have "\<exists>t s'. cell_load sample_fs fresh_kernel = Inr s' \<and> hiv s' = Some t
          \<and> columns t = ?h
          \<and> reporter ''HIV_active'' (IntC 1) s' = Inl (KeyError ''HIV_active'')"
    unfolding cell_load_def by blast
  with a1 b1 b3 c1 sample_well_formed show ?thesis by blast
qed

text \<open>
  C3 as stated fails: a file whose header has no label column is loaded, and
  the cell binds the table.
\<close>

theorem loader_schema_counterexample:
  "cell_load
     (Map.empty(''data/molecules_HIV.csv'' \<mapsto>
        [[''Smiles'', ''Experimental activity''], [''CCO'', ''CA'']]))
     \<lparr> hiv = None, displayed = [] \<rparr>
   = Inr \<lparr> hiv = Some \<lparr> columns = [''Smiles'', ''Experimental activity''],
                         rows = [[StrC ''CCO'', StrC ''CA'']] \<rparr>,
           displayed = [OutTable \<lparr> columns = [''Smiles'', ''Experimental activity''],
                                   rows = [[StrC ''CCO'', StrC ''CA'']] \<rparr>] \<rparr>"
  by code_simp

text \<open>
  C4. When the path names no file, \<^verbatim>\<open>read_csv\<close> raises
  \<^verbatim>\<open>FileNotFoundError\<close>, the loading cell fails with it and binds no table.
\<close>

theorem loader_missing_file:
  assumes "fs path = None"
  shows "read_csv fs path = Inl FileNotFoundError
         \<and> loader fs path s = Inl FileNotFoundError"
  using assms by (simp add: read_csv_def loader_def)

theorem loader_missing_file_witness:
  "sample_fs ''data/HIV.csv'' = None
   \<and> read_csv sample_fs ''data/HIV.csv'' = Inl FileNotFoundError
   \<and> loader sample_fs ''data/HIV.csv'' fresh_kernel = Inl FileNotFoundError"
proof -
  have h: "sample_fs ''data/HIV.csv'' = None" by (simp add: sample_fs_def)
  from loader_missing_file [where fs = sample_fs and path = "''data/HIV.csv''"
      and s = fresh_kernel, OF h] h
  show ?thesis by simp
qed

text \<open>
  C5. On a loaded table and a column with exactly two distinct (non-missing)
  values, the Distribution Visualizer shows a chart with exactly two bars,
  one for each of the two values, each as high as the number of records with
  that value; the y axis is labelled \<^verbatim>\<open>Num of molecules\<close> and the x axis
  \<^verbatim>\<open>Class 0: inactives and Class 1: Actives\<close>.
\<close>

theorem visualizer_two_categories:
  assumes "hiv s = Some df" and "wf_table df" and "name \<in> set (columns df)"
    and "card {c \<in> set (column_values df name). c \<noteq> NaN} = 2"
  shows "\<exists>ax. visualizer name s = Inr (plt_show ax s)
           \<and> length (bars ax) = 2
           \<and> distinct (map fst (bars ax))
           \<and> set (map fst (bars ax)) = {c \<in> set (column_values df name). c \<noteq> NaN}
           \<and> (\<forall>(c, h) \<in> set (bars ax).
                 h = length (filter (\<lambda>v. v = c) (column_values df name)))
           \<and> y_label ax = ''Num of molecules''
           \<and> x_label ax = ''Class 0: inactives and Class 1: Actives''"
proof -
  from count_plot_of_column [OF assms(1,3)]
  obtain ax where run: "visualizer name s = Inr (plt_show ax s)"
    and d: "distinct (map fst (bars ax))"
    and cats: "set (map fst (bars ax)) = {c \<in> set (column_values df name). c \<noteq> NaN}"
    and rest: "(\<forall>(c, h) \<in> set (bars ax).
                 h = length (filter (\<lambda>v. v = c) (column_values df name)))"
      "y_label ax = ''Num of molecules''"
      "x_label ax = ''Class 0: inactives and Class 1: Actives''"
    by blast
  from d have "length (map fst (bars ax)) = card (set (map fst (bars ax)))"
    by (simp only: distinct_card)
  with cats assms(4) have "length (bars ax) = 2" by simp
  with run d cats rest show ?thesis by blast
qed

theorem visualizer_two_categories_witness:
  "hiv loaded_kernel = Some sample_table
   \<and> wf_table sample_table
   \<and> ''Label'' \<in> set (columns sample_table)
   \<and> card {c \<in> set (column_values sample_table ''Label''). c \<noteq> NaN} = 2
   \<and> (\<exists>ax. cell_plot loaded_kernel = Inr (plt_show ax loaded_kernel)
          \<and> length (bars ax) = 2
          \<and> set (map fst (bars ax)) = {IntC 0, IntC 1}
          \<and> y_label ax = ''Num of molecules'')"
proof -
  have h1: "hiv loaded_kernel = Some sample_table" by (simp add: loaded_kernel_def)
  have h3: "''Label'' \<in> set (columns sample_table)" by (simp add: sample_table_def)
  have vals: "{c \<in> set (column_values sample_table ''Label''). c \<noteq> NaN} = {IntC 0, IntC 1}"
    by (auto simp: sample_label_column)
  have h4: "card {c \<in> set (column_values sample_table ''Label''). c \<noteq> NaN} = 2"
    by (simp add: vals)
  from visualizer_two_categories [OF h1 sample_wf_table h3 h4]
  have "\<exists>ax. cell_plot loaded_kernel = Inr (plt_show ax loaded_kernel)
          \<and> length (bars ax) = 2
          \<and> set (map fst (bars ax)) = {IntC 0, IntC 1}
          \<and> y_label ax = ''Num of molecules''"
    unfolding cell_plot_def vals by blast
  with h1 h3 h4 sample_wf_table show ?thesis by blast
qed

text \<open>
  C6 (as the code has it). Nothing in the workflow checks the labels: the
  loader keeps each label as the file gives it. When every field of the label
  column of a well-formed file is \<^verbatim>\<open>0\<close> or \<^verbatim>\<open>1\<close>, every record of the
  loaded table has the integer 0 or 1 as its label, and this still holds
  after any Summary Reporter query and any Distribution Visualizer call,
  which leave the table as it is.
\<close>

theorem labels_stay_binary:
  assumes "fs path = Some (header # body)" and "well_formed (header # body)"
    and "label \<in> set header"
    and "\<forall>r \<in> set body. r ! index_of label header = ''0'' \<or> r ! index_of label header = ''1''"
  shows "\<exists>t s1. loader fs path s = Inr s1 \<and> hiv s1 = Some t \<and> binary_labels t label
           \<and> (\<forall>name v n s2. reporter name v s1 = Inr (n, s2) \<longrightarrow> hiv s2 = Some t)
           \<and> (\<forall>name s2. visualizer name s1 = Inr s2 \<longrightarrow> hiv s2 = Some t)"
proof -
  let ?j = "index_of label header"
  let ?t = "\<lparr> columns = header, rows = build_rows 0 (length header) body \<rparr>"
  let ?s = "s \<lparr> hiv := Some ?t, displayed := displayed s @ [OutTable (head ?t)] \<rparr>"
  from assms(1,2) have "read_csv fs path = Inr ?t"
    by (simp add: read_csv_def parse_lines_well_formed)
  then have l: "loader fs path s = Inr ?s" by (rule loader_success)
  have h: "hiv ?s = Some ?t" by simp
  from assms(3) have j: "?j < length header" by (rule index_of_less)
  then have col: "column_values ?t label = infer_column (field_column body ?j)"
    by (simp add: column_values_def build_rows_column)
  from assms(4) have "\<forall>f \<in> set (field_column body ?j). f = ''0'' \<or> f = ''1''"
    by (simp add: field_column_def)
  then have "list_all (\<lambda>c. c = IntC 0 \<or> c = IntC 1) (infer_column (field_column body ?j))"
    by (rule binary_fields_numeric)
  with col have b: "binary_labels ?t label" by (simp only: binary_labels_def)
  have r: "\<forall>name v n s2. reporter name v ?s = Inr (n, s2) \<longrightarrow> hiv s2 = Some ?t"
    using h by (metis reporter_keeps_hiv)
  have v: "\<forall>name s2. visualizer name ?s = Inr s2 \<longrightarrow> hiv s2 = Some ?t"
    using h by (metis visualizer_keeps_hiv)
  from l h b r v show ?thesis by blast
qed

theorem labels_stay_binary_witness:
  "sample_fs ''data/molecules_HIV.csv'' = Some sample_lines
   \<and> well_formed sample_lines
   \<and> ''Label'' \<in> set (hd sample_lines)
   \<and> list_all (\<lambda>r. r ! 2 = ''0'' \<or> r ! 2 = ''1'') (tl sample_lines)
   \<and> cell_load sample_fs fresh_kernel = Inr loaded_kernel
   \<and> hiv loaded_kernel = Some sample_table
   \<and> binary_labels sample_table ''Label''
   \<and> (\<exists>s2. cell_count loaded_kernel = Inr (2, s2) \<and> hiv s2 = Some sample_table)"
proof -
  let ?h = "hd sample_lines"
  let ?b = "tl sample_lines"
  have split: "sample_lines = ?h # ?b" by (simp add: sample_lines_def)
  have h1: "sample_fs ''data/molecules_HIV.csv'' = Some (?h # ?b)"
    using split by (simp add: sample_fs_def)
  have h2: "well_formed (?h # ?b)" using sample_well_formed split by simp
  have h3: "''Label'' \<in> set ?h" by (simp add: sample_lines_def)
  have j: "index_of ''Label'' ?h = 2" by (simp add: sample_lines_def)
  have fields: "list_all (\<lambda>r. r ! 2 = ''0'' \<or> r ! 2 = ''1'') ?b"
    by (simp add: sample_lines_def)
  then have h4: "\<forall>r \<in> set ?b. r ! index_of ''Label'' ?h = ''0''
                    \<or> r ! index_of ''Label'' ?h = ''1''"
    by (simp only: j list_all_iff)
  have k: "hiv loaded_kernel = Some sample_table" by (simp add: loaded_kernel_def)
  have c: "''Label'' \<in> set (columns sample_table)" by (simp add: sample_table_def)
  have q: "cell_count loaded_kernel
           = Inr (2, loaded_kernel \<lparr> displayed := displayed loaded_kernel @ [OutInt 2] \<rparr>)"
    by (simp add: cell_count_def reporter_result [OF k c] sample_label_column)
  from labels_stay_binary [where fs = sample_fs and path = "''data/molecules_HIV.csv''"
      and s = fresh_kernel, OF h1 h2 h3 h4]
  obtain t s1 where l: "loader sample_fs ''data/molecules_HIV.csv'' fresh_kernel = Inr s1"
    and t: "hiv s1 = Some t" and b: "binary_labels t ''Label''"
    and r: "\<forall>name v n s2. reporter name v s1 = Inr (n, s2) \<longrightarrow> hiv s2 = Some t"
    by blast
  from l sample_load have s1: "s1 = loaded_kernel" by (simp add: cell_load_def)
  with t k have t': "t = sample_table" by simp
  from r q have "\<exists>s2. cell_count loaded_kernel = Inr (2, s2) \<and> hiv s2 = Some sample_table"
    unfolding s1 t' cell_count_def by blast
  moreover from b have "binary_labels sample_table ''Label''" by (simp only: t')
  ultimately show ?thesis
    using h1 h2 h3 fields split sample_load k by simp
qed

text \<open>
  C6 as stated fails: a label other than 0 and 1 in the file is a label of
  the loaded table.
\<close>

theorem label_two_counterexample:
  "read_csv
     (Map.empty(''data/molecules_HIV.csv'' \<mapsto>
        [[''Smiles'', ''Experimental activity'', ''Label''], [''CCO'', ''CA'', ''2'']]))
     ''data/molecules_HIV.csv''
   = Inr \<lparr> columns = [''Smiles'', ''Experimental activity'', ''Label''],
           rows = [[StrC ''CCO'', StrC ''CA'', IntC 2]] \<rparr>
   \<and> \<not> binary_labels \<lparr> columns = [''Smiles'', ''Experimental activity'', ''Label''],
                         rows = [[StrC ''CCO'', StrC ''CA'', IntC 2]] \<rparr> ''Label''"
  by code_simp




text \<open>
  C8. Neither the Summary Reporter nor the Distribution Visualizer modifies
  the loaded table: whenever one of them returns, \<^verbatim>\<open>hiv\<close> is bound to the
  same table (same records in the same order, same column names) as before.
\<close>

theorem table_never_modified:
  "(reporter name v s = Inr (n, s1) \<longrightarrow> hiv s1 = hiv s)
   \<and> (visualizer name' s = Inr s2 \<longrightarrow> hiv s2 = hiv s)"
  by (blast dest: reporter_keeps_hiv visualizer_keeps_hiv)

theorem table_never_modified_witness:
  "reporter ''Label'' (IntC 1) loaded_kernel
     = Inr (2, loaded_kernel \<lparr> displayed := displayed loaded_kernel @ [OutInt 2] \<rparr>)
   \<and> hiv (loaded_kernel \<lparr> displayed := displayed loaded_kernel @ [OutInt 2] \<rparr>)
       = Some sample_table
   \<and> (\<exists>ax. visualizer ''Label'' loaded_kernel = Inr (plt_show ax loaded_kernel)
          \<and> hiv (plt_show ax loaded_kernel) = Some sample_table)"
proof -
  let ?s1 = "loaded_kernel \<lparr> displayed := displayed loaded_kernel @ [OutInt 2] \<rparr>"
  have h: "hiv loaded_kernel = Some sample_table" by (simp add: loaded_kernel_def)
  have c: "''Label'' \<in> set (columns sample_table)" by (simp add: sample_table_def)
  have r: "reporter ''Label'' (IntC 1) loaded_kernel = Inr (2, ?s1)"
    by (simp add: reporter_result [OF h c] sample_label_column)
  from draw_chart [OF c] obtain ax where "draw sample_table ''Label'' = Inr ax" by blast
  with h have v: "visualizer ''Label'' loaded_kernel = Inr (plt_show ax loaded_kernel)"
    by (simp add: visualizer_def)
  from table_never_modified [of "''Label''" "IntC 1" loaded_kernel 2 ?s1
      "''Label''" "plt_show ax loaded_kernel"] r v h
  have "hiv ?s1 = Some sample_table" "hiv (plt_show ax loaded_kernel) = Some sample_table"
    by simp_all
  with r v show ?thesis by blast
qed

text \<open>
  C9. On a loaded table whose label column holds only 0 and 1, the Summary
  Reporter's count for 1 plus its count for 0 is the number of records, and
  each of the two counts lies between 0 and that number.
\<close>

theorem reporter_binary_partition:
  assumes "hiv s = Some df" and "wf_table df" and "name \<in> set (columns df)"
    and "binary_labels df name"
  shows "\<exists>n1 n0 s1 s0. reporter name (IntC 1) s = Inr (n1, s1)
           \<and> reporter name (IntC 0) s = Inr (n0, s0)
           \<and> n1 + n0 = len df \<and> n1 \<le> len df \<and> n0 \<le> len df"
proof -
  let ?col = "column_values df name"
  let ?n1 = "length (filter (\<lambda>c. cell_eq c (IntC 1)) ?col)"
  let ?n0 = "length (filter (\<lambda>c. cell_eq c (IntC 0)) ?col)"
  have n: "length ?col = len df" by (simp add: column_values_def len_def)
  from assms(4) have "?n1 + ?n0 = length ?col"
    unfolding binary_labels_def by (rule binary_split)
  with n have sum: "?n1 + ?n0 = len df" by simp
  then have "?n1 \<le> len df" "?n0 \<le> len df" by arith+
  with sum reporter_result [OF assms(1,3), of "IntC 1"]
    reporter_result [OF assms(1,3), of "IntC 0"]
  show ?thesis by blast
qed

theorem reporter_binary_partition_witness:
  "hiv loaded_kernel = Some sample_table
   \<and> wf_table sample_table
   \<and> ''Label'' \<in> set (columns sample_table)
   \<and> binary_labels sample_table ''Label''
   \<and> (\<exists>n1 n0 s1 s0. reporter ''Label'' (IntC 1) loaded_kernel = Inr (n1, s1)
          \<and> reporter ''Label'' (IntC 0) loaded_kernel = Inr (n0, s0)
          \<and> n1 + n0 = 5 \<and> n1 \<le> 5 \<and> n0 \<le> 5)"
proof -
  have h1: "hiv loaded_kernel = Some sample_table" by (simp add: loaded_kernel_def)
  have h3: "''Label'' \<in> set (columns sample_table)" by (simp add: sample_table_def)
  have h4: "binary_labels sample_table ''Label''"
    by (simp add: binary_labels_def sample_label_column)
  have n: "len sample_table = 5" by (simp add: len_def sample_table_def)
  from reporter_binary_partition [OF h1 sample_wf_table h3 h4]
  have "\<exists>n1 n0 s1 s0. reporter ''Label'' (IntC 1) loaded_kernel = Inr (n1, s1)
          \<and> reporter ''Label'' (IntC 0) loaded_kernel = Inr (n0, s0)
          \<and> n1 + n0 = 5 \<and> n1 \<le> 5 \<and> n0 \<le> 5"
    unfolding n .
  with h1 h3 h4 sample_wf_table show ?thesis by blast
qed

text \<open>
  C10. On a table with no record that still has the target column, the
  Summary Reporter returns 0 for every match value and does not fail.
\<close>

theorem reporter_empty_table:
  assumes "hiv s = Some df" and "wf_table df" and "rows df = []"
    and "name \<in> set (columns df)"
  shows "count_equal df name v = Inr 0 \<and> (\<exists>s'. reporter name v s = Inr (0, s'))"
proof -
  from assms(3) have "column_values df name = []" by (simp add: column_values_def)
  then show ?thesis
    by (simp add: reporter_result [OF assms(1,4)] count_equal_column [OF assms(4)])
qed

theorem reporter_empty_table_witness:
  "hiv \<lparr> hiv = Some \<lparr> columns = [''Smiles'', ''Label''], rows = [] \<rparr>, displayed = [] \<rparr>
     = Some \<lparr> columns = [''Smiles'', ''Label''], rows = [] \<rparr>
   \<and> wf_table \<lparr> columns = [''Smiles'', ''Label''], rows = [] \<rparr>
   \<and> rows \<lparr> columns = [''Smiles'', ''Label''], rows = [] \<rparr> = []
   \<and> ''Label'' \<in> set (columns \<lparr> columns = [''Smiles'', ''Label''], rows = [] \<rparr>)
   \<and> count_equal \<lparr> columns = [''Smiles'', ''Label''], rows = [] \<rparr> ''Label'' (IntC 1) = Inr 0"
proof -
  let ?df = "\<lparr> columns = [''Smiles'', ''Label''], rows = [] \<rparr>"
  let ?s = "\<lparr> hiv = Some ?df, displayed = [] \<rparr>"
  have h1: "hiv ?s = Some ?df" by simp
  have h2: "wf_table ?df" by (simp add: wf_table_def)
  have h3: "rows ?df = []" by simp
  have h4: "''Label'' \<in> set (columns ?df)" by simp
  from reporter_empty_table [OF h1 h2 h3 h4, of "IntC 1"]
  have "count_equal ?df ''Label'' (IntC 1) = Inr 0" by blast
  with h1 h2 h3 h4 show ?thesis by blast
qed

end
